theory Spec2Isabelle
  imports Complex_Main
begin

section \<open>Values on the wire\<close>

text \<open>
  The live-tracking core of the bus application: the hook \<^verbatim>\<open>useVehiclesWebSocket\<close> (the
  second module in \<^verbatim>\<open>src/frontend/src/hooks/useApi.ts\<close>) and the component \<^verbatim>\<open>LiveMap\<close> (the
  second module in \<^verbatim>\<open>src/frontend/src/pages/Arrivals.tsx\<close>).

  A frame of the vehicle stream is text. \<^verbatim>\<open>JSON.parse(event.data)\<close> either throws a
  SyntaxError or returns a JavaScript value. TypeScript's types are erased at run time
  (\<^verbatim>\<open>const message: WSMessage = JSON.parse(event.data)\<close> is an unchecked cast), so the
  message handler of the hook is modelled on JavaScript values. An object is the list of its
  own properties (the first entry for a name is the property). Numbers are real numbers, and
  a string is a list of 8-bit characters, whose number is its \<^verbatim>\<open>length\<close>.
\<close>

datatype jsval =
    Undefined
  | Null
  | Bool bool
  | Num real
  | Str string
  | Arr "jsval list"
  | Obj "(string \<times> jsval) list"

datatype exn = SyntaxError | TypeError

text \<open>The payload of a message event, as \<^verbatim>\<open>JSON.parse\<close> sees it.\<close>

datatype ws_data = Unparsable | Json jsval

definition JSON_parse :: "ws_data \<Rightarrow> exn + jsval" where
  "JSON_parse d = (case d of Unparsable \<Rightarrow> Inl SyntaxError | Json v \<Rightarrow> Inr v)"

text \<open>
  Reading a property \<^verbatim>\<open>v.name\<close>, for the names this program reads (\<^verbatim>\<open>type\<close>,
  \<^verbatim>\<open>vehicles\<close>, \<^verbatim>\<open>length\<close>, \<^verbatim>\<open>vehicle_count\<close>, \<^verbatim>\<open>message\<close> and the fields of a
  vehicle; no prototype defines any of them but \<^verbatim>\<open>length\<close>): on \<^verbatim>\<open>undefined\<close> and
  \<^verbatim>\<open>null\<close> it throws a TypeError; an array and a string have a \<^verbatim>\<open>length\<close>; an object
  has its own properties; everything else reads as \<^verbatim>\<open>undefined\<close>.
\<close>

fun get_prop :: "jsval \<Rightarrow> string \<Rightarrow> exn + jsval" where
  "get_prop Undefined name = Inl TypeError"
| "get_prop Null name = Inl TypeError"
| "get_prop (Obj fs) name = (case map_of fs name of Some v \<Rightarrow> Inr v | None \<Rightarrow> Inr Undefined)"
| "get_prop (Arr xs) name = (if name = ''length'' then Inr (Num (real (length xs))) else Inr Undefined)"
| "get_prop (Str s) name = (if name = ''length'' then Inr (Num (real (length s))) else Inr Undefined)"
| "get_prop (Bool b) name = Inr Undefined"
| "get_prop (Num n) name = Inr Undefined"

section \<open>Data model of the hook \<^verbatim>\<open>useVehiclesWebSocket\<close>\<close>

record VehiclePosition =
  trip_id :: string
  route_id :: string
  direction_id :: real
  vehicle_id :: string
  timestamp :: real
  latitude :: real
  longitude :: real
  bearing :: "real option"
  speed :: "real option"

record MapBounds =
  north :: real
  south :: real
  east :: real
  west :: real

text \<open>The one outbound message, \<^verbatim>\<open>{ type: 'subscribe_bounds', bounds }\<close>.\<close>

datatype outbound = SubscribeBounds MapBounds

datatype readyState = CONNECTING | OPEN | CLOSING | CLOSED

text \<open>
  The state of the hook: its three refs and four pieces of React state (a \<^verbatim>\<open>setState\<close> call
  is the update of the field), followed by the part of the browser it acts on. A WebSocket
  handle is the index of the socket in \<open>sockets\<close> (\<^verbatim>\<open>new WebSocket(url)\<close> appends one, in
  state \<open>CONNECTING\<close>); \<open>sent\<close> logs every \<^verbatim>\<open>ws.send\<close> with its handle; \<open>timers\<close> are
  the pending timeouts, each with its id and the time (ms) at which it is due;
  \<open>next_timer\<close> is the id that the next \<^verbatim>\<open>setTimeout\<close> returns. A \<^verbatim>\<open>Date\<close> is a time in
  ms. \<^verbatim>\<open>vehicleCount\<close> holds whatever value the handler stores in it.
\<close>

record hook =
  wsRef :: "nat option"
  reconnectTimeoutRef :: "nat option"
  pendingBoundsRef :: "MapBounds option"
  connected :: bool
  vehicleCount :: jsval
  error :: "string option"
  lastUpdate :: "nat option"
  sockets :: "readyState list"
  sent :: "(nat \<times> outbound) list"
  timers :: "(nat \<times> nat) list"
  next_timer :: nat

definition init :: hook where
  "init = \<lparr> wsRef = None, reconnectTimeoutRef = None, pendingBoundsRef = None,
            connected = False, vehicleCount = Num 0, error = None, lastUpdate = None,
            sockets = [], sent = [], timers = [], next_timer = 1 \<rparr>"

definition readyState_of :: "hook \<Rightarrow> nat \<Rightarrow> readyState option" where
  "readyState_of s h = (if h < length (sockets s) then Some (sockets s ! h) else None)"

text \<open>\<^verbatim>\<open>wsRef.current?.readyState === WebSocket.OPEN\<close>\<close>

definition current_open :: "hook \<Rightarrow> bool" where
  "current_open s = (case wsRef s of None \<Rightarrow> False | Some h \<Rightarrow> readyState_of s h = Some OPEN)"

definition clearTimeout :: "nat \<Rightarrow> hook \<Rightarrow> hook" where
  "clearTimeout tid s = s\<lparr> timers := filter (\<lambda>p. fst p \<noteq> tid) (timers s) \<rparr>"

text \<open>\<^verbatim>\<open>if (reconnectTimeoutRef.current) clearTimeout(reconnectTimeoutRef.current)\<close>:
  a timer id is a number, truthy unless it is 0.\<close>

definition clear_reconnect :: "hook \<Rightarrow> hook" where
  "clear_reconnect s =
     (case reconnectTimeoutRef s of
        None \<Rightarrow> s
      | Some tid \<Rightarrow> if tid \<noteq> 0 then clearTimeout tid s else s)"

section \<open>The hook's operations\<close>

definition sendBounds :: "MapBounds \<Rightarrow> hook \<Rightarrow> hook" where
  "sendBounds bounds s =
     (case wsRef s of
        None \<Rightarrow> s
      | Some h \<Rightarrow>
          if readyState_of s h = Some OPEN
          then s\<lparr> sent := sent s @ [(h, SubscribeBounds bounds)] \<rparr>
          else s)"

text \<open>\<^verbatim>\<open>connect\<close>, up to the assignment \<^verbatim>\<open>wsRef.current = ws\<close>. The constructor is given the
  fixed URL and is taken to succeed. The four handlers it installs are the functions
  \<open>ws_onopen\<close>, \<open>ws_onmessage\<close>, \<open>ws_onerror\<close> and \<open>ws_onclose\<close> below: none of them
  mentions the socket \<^verbatim>\<open>ws\<close> they are installed on.\<close>

definition connect :: "hook \<Rightarrow> hook" where
  "connect s =
     (if current_open s then s
      else
        let s1 = clear_reconnect s
        in s1\<lparr> sockets := sockets s1 @ [CONNECTING], wsRef := Some (length (sockets s1)) \<rparr>)"

definition ws_onopen :: "hook \<Rightarrow> hook" where
  "ws_onopen s =
     (let s1 = s\<lparr> connected := True, error := None \<rparr>
      in case pendingBoundsRef s1 of
           None \<Rightarrow> s1
         | Some b \<Rightarrow> (sendBounds b s1)\<lparr> pendingBoundsRef := None \<rparr>)"

definition ws_onerror :: "hook \<Rightarrow> hook" where
  "ws_onerror s = s\<lparr> error := Some ''WebSocket connection error'' \<rparr>"

text \<open>\<^verbatim>\<open>ws.onclose\<close> at time \<open>now\<close>: \<^verbatim>\<open>setTimeout(..., 3000)\<close> registers a new timer whose
  callback calls \<^verbatim>\<open>connect()\<close>, and its id is stored in the ref.\<close>

definition ws_onclose :: "nat \<Rightarrow> hook \<Rightarrow> hook" where
  "ws_onclose now s =
     s\<lparr> connected := False,
        wsRef := None,
        timers := timers s @ [(next_timer s, now + 3000)],
        next_timer := Suc (next_timer s),
        reconnectTimeoutRef := Some (next_timer s) \<rparr>"

text \<open>
  \<^verbatim>\<open>ws.onmessage\<close>. The body of the \<^verbatim>\<open>try\<close> returns the state it has reached and the
  exception that stopped it, if any; \<open>cb\<close> is \<^verbatim>\<open>onVehicleUpdatesRef.current\<close>, acting on the
  state \<open>e\<close> of whoever registered it. State set before a throw stays set.
\<close>

fun onmessage_try ::
  "(jsval \<Rightarrow> 'e \<Rightarrow> 'e) option \<Rightarrow> nat \<Rightarrow> ws_data \<Rightarrow> hook \<times> 'e \<Rightarrow> (hook \<times> 'e) \<times> exn option" where
  "onmessage_try cb now d (s, e) =
     (case JSON_parse d of
        Inl x \<Rightarrow> ((s, e), Some x)
      | Inr message \<Rightarrow>
         (case get_prop message ''type'' of
            Inl x \<Rightarrow> ((s, e), Some x)
          | Inr ty \<Rightarrow>
             if ty = Str ''vehicle_updates'' then
               (let s1 = s\<lparr> lastUpdate := Some now \<rparr> in
                case get_prop message ''vehicles'' of
                  Inl x \<Rightarrow> ((s1, e), Some x)
                | Inr vs \<Rightarrow>
                   (case get_prop vs ''length'' of
                      Inl x \<Rightarrow> ((s1, e), Some x)
                    | Inr n \<Rightarrow>
                       ((s1\<lparr> vehicleCount := n \<rparr>,
                         (case cb of None \<Rightarrow> e | Some f \<Rightarrow> f vs e)), None)))
             else if ty = Str ''connected'' then
               (case get_prop message ''vehicle_count'' of
                  Inl x \<Rightarrow> ((s, e), Some x)
                | Inr n \<Rightarrow> ((s\<lparr> vehicleCount := n \<rparr>, e), None))
             else if ty = Str ''bounds_set'' then
               (case get_prop message ''vehicle_count'' of
                  Inl x \<Rightarrow> ((s, e), Some x)
                | Inr n \<Rightarrow> ((s\<lparr> vehicleCount := n \<rparr>, e), None))
             else ((s, e), None)))"

declare onmessage_try.simps [simp del]

text \<open>The \<^verbatim>\<open>catch\<close> only logs.\<close>

definition ws_onmessage ::
  "(jsval \<Rightarrow> 'e \<Rightarrow> 'e) option \<Rightarrow> nat \<Rightarrow> ws_data \<Rightarrow> hook \<times> 'e \<Rightarrow> hook \<times> 'e" where
  "ws_onmessage cb now d se = fst (onmessage_try cb now d se)"

definition subscribeToBounds :: "MapBounds \<Rightarrow> hook \<Rightarrow> hook" where
  "subscribeToBounds bounds s =
     (if current_open s then sendBounds bounds s
      else s\<lparr> pendingBoundsRef := Some bounds \<rparr>)"

text \<open>The effect that runs on mount, and its cleanup. \<^verbatim>\<open>ws.close()\<close> moves a socket that is
  connecting or open to \<open>CLOSING\<close> and does nothing otherwise; the browser fires its close
  event later.\<close>

definition mount_effect :: "bool \<Rightarrow> hook \<Rightarrow> hook" where
  "mount_effect autoConnect s = (if autoConnect then connect s else s)"

definition ws_close :: "nat \<Rightarrow> hook \<Rightarrow> hook" where
  "ws_close h s =
     (if readyState_of s h = Some CONNECTING \<or> readyState_of s h = Some OPEN
      then s\<lparr> sockets := (sockets s)[h := CLOSING] \<rparr>
      else s)"

definition cleanup :: "hook \<Rightarrow> hook" where
  "cleanup s =
     (let s1 = clear_reconnect s
      in case wsRef s1 of
           None \<Rightarrow> s1
         | Some h \<Rightarrow> (ws_close h s1)\<lparr> wsRef := None \<rparr>)"

section \<open>Events\<close>

text \<open>
  What can happen to the hook, each at a time \<open>now\<close> (ms): the browser fires an event of
  socket \<open>h\<close> or lets a timer expire, the page calls \<^verbatim>\<open>subscribeToBounds\<close>, React runs the
  effect or its cleanup. An event that cannot happen in the state gives \<open>None\<close>: a socket
  opens only while connecting, delivers messages only while open, and closes once; a timer
  fires only while pending and due, and then calls \<^verbatim>\<open>connect()\<close>.
\<close>

datatype event =
    Open nat
  | Message nat ws_data
  | Error nat
  | Close nat
  | Timeout nat
  | SubscribeToBounds MapBounds
  | Mount bool
  | Unmount

fun step :: "(jsval \<Rightarrow> 'e \<Rightarrow> 'e) option \<Rightarrow> nat \<times> event \<Rightarrow> hook \<times> 'e \<Rightarrow> (hook \<times> 'e) option" where
  "step cb (now, Open h) (s, e) =
     (if readyState_of s h = Some CONNECTING
      then Some (ws_onopen (s\<lparr> sockets := (sockets s)[h := OPEN] \<rparr>), e)
      else None)"
| "step cb (now, Message h d) (s, e) =
     (if readyState_of s h = Some OPEN then Some (ws_onmessage cb now d (s, e)) else None)"
| "step cb (now, Error h) (s, e) =
     (if readyState_of s h = None \<or> readyState_of s h = Some CLOSED then None
      else Some (ws_onerror s, e))"
| "step cb (now, Close h) (s, e) =
     (if readyState_of s h = None \<or> readyState_of s h = Some CLOSED then None
      else Some (ws_onclose now (s\<lparr> sockets := (sockets s)[h := CLOSED] \<rparr>), e))"
| "step cb (now, Timeout tid) (s, e) =
     (case map_of (timers s) tid of
        None \<Rightarrow> None
      | Some due \<Rightarrow> if due \<le> now then Some (connect (clearTimeout tid s), e) else None)"
| "step cb (now, SubscribeToBounds b) (s, e) = Some (subscribeToBounds b s, e)"
| "step cb (now, Mount autoConnect) (s, e) = Some (mount_effect autoConnect s, e)"
| "step cb (now, Unmount) (s, e) = Some (cleanup s, e)"

fun run :: "(jsval \<Rightarrow> 'e \<Rightarrow> 'e) option \<Rightarrow> (nat \<times> event) list \<Rightarrow> hook \<times> 'e \<Rightarrow> (hook \<times> 'e) option" where
  "run cb [] se = Some se"
| "run cb (ev # evs) se = (case step cb ev se of None \<Rightarrow> None | Some se' \<Rightarrow> run cb evs se')"

section \<open>The vehicle table and the markers of \<^verbatim>\<open>LiveMap\<close>\<close>

type_synonym table = "string \<rightharpoonup> VehiclePosition"

text \<open>The updater that \<^verbatim>\<open>handleVehicleUpdates\<close> hands to \<^verbatim>\<open>setVehicles\<close>: copy the map, then
  \<^verbatim>\<open>next.set(v.trip_id, v)\<close> for each update in order. The order of the keys of a
  \<^verbatim>\<open>Map\<close> plays no part in what follows, so the table is a partial function. (The page
  also loads the table once over REST, \<^verbatim>\<open>fetchInitialVehicles\<close>; that is not part of the
  stream and is left out.)\<close>

definition handleVehicleUpdates :: "table \<Rightarrow> VehiclePosition list \<Rightarrow> table" where
  "handleVehicleUpdates prev updates = fold (\<lambda>v next. next(trip_id v \<mapsto> v)) updates prev"

text \<open>A marker: where it stands, the bearing its icon was made with, and the vehicle its
  popup and click handler were given when it was created.\<close>

record marker =
  latlng :: "real \<times> real"
  icon :: "real option"
  bound :: VehiclePosition

record livemap =
  vehicles :: table
  markers :: "string \<rightharpoonup> marker"
  mapReady :: bool

text \<open>The header shows \<^verbatim>\<open>vehicles.size\<close>.\<close>

definition shown_count :: "livemap \<Rightarrow> nat" where
  "shown_count lm = card (dom (vehicles lm))"

text \<open>The marker effect, which runs after \<^verbatim>\<open>vehicles\<close> has changed. Its first loop removes
  the markers whose trip id is not a key of \<^verbatim>\<open>vehicles\<close>; \<open>toRemove\<close> is that set. Its second
  loop moves the marker of every vehicle that has one and creates the others.\<close>

definition toRemove :: "livemap \<Rightarrow> string set" where
  "toRemove lm = dom (markers lm) - dom (vehicles lm)"

definition update_markers :: "livemap \<Rightarrow> livemap" where
  "update_markers lm =
     (if \<not> mapReady lm then lm
      else
        let kept = markers lm |` (- toRemove lm)
        in lm\<lparr> markers := (\<lambda>tripId.
             case vehicles lm tripId of
               None \<Rightarrow> kept tripId
             | Some vehicle \<Rightarrow>
                (case kept tripId of
                   Some existingMarker \<Rightarrow>
                     Some (existingMarker\<lparr> latlng := (latitude vehicle, longitude vehicle),
                                           icon := bearing vehicle \<rparr>)
                 | None \<Rightarrow>
                     Some \<lparr> latlng = (latitude vehicle, longitude vehicle),
                            icon = bearing vehicle, bound = vehicle \<rparr>)) \<rparr>)"

text \<open>Applying a list of batches, one \<^verbatim>\<open>handleVehicleUpdates\<close> call each.\<close>

definition apply_batches :: "table \<Rightarrow> VehiclePosition list list \<Rightarrow> table" where
  "apply_batches t batches = fold (\<lambda>updates prev. handleVehicleUpdates prev updates) batches t"

section \<open>From the hook to the table\<close>

text \<open>
  \<^verbatim>\<open>LiveMap\<close> registers \<^verbatim>\<open>handleVehicleUpdates\<close> as the hook's callback, typed
  \<^verbatim>\<open>(vehicles: VehiclePosition[]) => void\<close>. A JavaScript value has that type when it is an
  array of objects with the interface's fields: seven required ones, and \<^verbatim>\<open>bearing\<close> and
  \<^verbatim>\<open>speed\<close> each a number or missing. \<open>as_vehicles\<close> reads such a value as the list of
  records it stands for.
\<close>

definition field :: "jsval \<Rightarrow> string \<Rightarrow> jsval" where
  "field v name = (case get_prop v name of Inl x \<Rightarrow> Undefined | Inr x \<Rightarrow> x)"

fun is_Str :: "jsval \<Rightarrow> bool" where
  "is_Str (Str s) = True"
| "is_Str v = False"

fun is_Num :: "jsval \<Rightarrow> bool" where
  "is_Num (Num n) = True"
| "is_Num v = False"

fun the_Str :: "jsval \<Rightarrow> string" where
  "the_Str (Str s) = s"
| "the_Str v = []"

fun the_Num :: "jsval \<Rightarrow> real" where
  "the_Num (Num n) = n"
| "the_Num v = 0"

fun opt_Num :: "jsval \<Rightarrow> real option" where
  "opt_Num (Num n) = Some n"
| "opt_Num v = None"

definition is_VehiclePosition :: "jsval \<Rightarrow> bool" where
  "is_VehiclePosition v =
     (is_Str (field v ''trip_id'') \<and> is_Str (field v ''route_id'') \<and>
      is_Num (field v ''direction_id'') \<and> is_Str (field v ''vehicle_id'') \<and>
      is_Num (field v ''timestamp'') \<and> is_Num (field v ''latitude'') \<and>
      is_Num (field v ''longitude'') \<and>
      (field v ''bearing'' = Undefined \<or> is_Num (field v ''bearing'')) \<and>
      (field v ''speed'' = Undefined \<or> is_Num (field v ''speed'')))"

definition the_VehiclePosition :: "jsval \<Rightarrow> VehiclePosition" where
  "the_VehiclePosition v =
     \<lparr> trip_id = the_Str (field v ''trip_id''), route_id = the_Str (field v ''route_id''),
       direction_id = the_Num (field v ''direction_id''),
       vehicle_id = the_Str (field v ''vehicle_id''),
       timestamp = the_Num (field v ''timestamp''), latitude = the_Num (field v ''latitude''),
       longitude = the_Num (field v ''longitude''), bearing = opt_Num (field v ''bearing''),
       speed = opt_Num (field v ''speed'') \<rparr>"

fun as_vehicles :: "jsval \<Rightarrow> VehiclePosition list option" where
  "as_vehicles (Arr xs) =
     (if list_all is_VehiclePosition xs then Some (map the_VehiclePosition xs) else None)"
| "as_vehicles v = None"

text \<open>
  The callback as \<^verbatim>\<open>LiveMap\<close> registers it, followed by the marker effect that the change of
  \<^verbatim>\<open>vehicles\<close> triggers. \<open>None\<close> is a page that has been handed a value outside the
  declared type: what it does then is not modelled, and nothing is claimed about it.
\<close>

definition LiveMap_onVehicleUpdates :: "jsval \<Rightarrow> livemap option \<Rightarrow> livemap option" where
  "LiveMap_onVehicleUpdates v page =
     (case page of
        None \<Rightarrow> None
      | Some lm \<Rightarrow>
         (case as_vehicles v of
            None \<Rightarrow> None
          | Some updates \<Rightarrow>
              Some (update_markers (lm\<lparr> vehicles := handleVehicleUpdates (vehicles lm) updates \<rparr>))))"

section \<open>Scenarios and sample data\<close>

text \<open>Events of a connection that is not open: errors, closes and reconnect timers.\<close>

fun reconnecting :: "nat \<times> event \<Rightarrow> bool" where
  "reconnecting (now, Error h) = True"
| "reconnecting (now, Close h) = True"
| "reconnecting (now, Timeout tid) = True"
| "reconnecting (now, ev) = False"

text \<open>
  \<open>n\<close> connection attempts in a row that fail at once: the current socket reports an error
  and closes at time \<open>now\<close>, the timer which that close registered fires 3000 ms later, and
  the socket opened then fails in the same way.
\<close>

fun failures :: "nat \<Rightarrow> nat \<Rightarrow> hook \<Rightarrow> hook option" where
  "failures 0 now s = Some s"
| "failures (Suc n) now s =
     (case wsRef s of
        None \<Rightarrow> None
      | Some h \<Rightarrow>
         (case run None [(now, Error h), (now, Close h), (now + 3000, Timeout (next_timer s))]
                 (s, ()) of
            None \<Rightarrow> None
          | Some se \<Rightarrow> failures n (now + 3000) (fst se)))"

text \<open>A connection attempt is under way: the current socket is connecting and no timer is
  pending.\<close>

definition attempting :: "hook \<Rightarrow> bool" where
  "attempting s =
     (case wsRef s of
        None \<Rightarrow> False
      | Some h \<Rightarrow> readyState_of s h = Some CONNECTING \<and> timers s = [])"

text \<open>A vehicle, the object that stands for it on the wire, and a
  \<^verbatim>\<open>vehicle_updates\<close> frame around a \<^verbatim>\<open>vehicles\<close> value.\<close>

definition vehicle :: "string \<Rightarrow> real \<Rightarrow> VehiclePosition" where
  "vehicle tid ts =
     \<lparr> trip_id = tid, route_id = ''15'', direction_id = 0, vehicle_id = ''33017'',
       timestamp = ts, latitude = 53.35, longitude = -6.26, bearing = None, speed = None \<rparr>"

definition vehicle_js :: "string \<Rightarrow> real \<Rightarrow> jsval" where
  "vehicle_js tid ts =
     Obj [(''trip_id'', Str tid), (''route_id'', Str ''15''), (''direction_id'', Num 0),
          (''vehicle_id'', Str ''33017''), (''timestamp'', Num ts), (''latitude'', Num 53.35),
          (''longitude'', Num (-6.26))]"

definition vehicle_updates :: "jsval \<Rightarrow> jsval" where
  "vehicle_updates vs =
     Obj [(''type'', Str ''vehicle_updates''), (''ts'', Str ''2024-05-01T12:00:00Z''),
          (''vehicles'', vs)]"

text \<open>A callback that only records what it is given.\<close>

definition log_delivery :: "jsval \<Rightarrow> jsval list \<Rightarrow> jsval list" where
  "log_delivery v seen = seen @ [v]"

text \<open>The hook once its first socket has opened, and a page whose map is ready and empty.\<close>

definition live :: hook where
  "live = \<lparr> wsRef = Some 0, reconnectTimeoutRef = None, pendingBoundsRef = None,
            connected = True, vehicleCount = Num 0, error = None, lastUpdate = None,
            sockets = [OPEN], sent = [], timers = [], next_timer = 1 \<rparr>"

definition blank_page :: livemap where
  "blank_page = \<lparr> vehicles = Map.empty, markers = Map.empty, mapReady = True \<rparr>"

text \<open>Events other than a run of the effect.\<close>

fun same_effect :: "nat \<times> event \<Rightarrow> bool" where
  "same_effect (now, Mount a) = False"
| "same_effect (now, ev) = True"

text \<open>Every socket but the newest is closed, a socket that is connecting is the current
  one, and a reconnect timer is pending only while every socket is closed, and then only
  one.\<close>

definition newest_only :: "hook \<Rightarrow> bool" where
  "newest_only s =
     ((\<forall>h. Suc h < length (sockets s) \<longrightarrow> sockets s ! h = CLOSED) \<and>
      (\<forall>h < length (sockets s). sockets s ! h = CONNECTING \<longrightarrow> wsRef s = Some h) \<and>
      (timers s = [] \<or>
       (length (timers s) = 1 \<and> (\<forall>h < length (sockets s). sockets s ! h = CLOSED))))"

section \<open>Last write wins in the vehicle table\<close>

lemma find_append_first:
  "List.find P (xs @ ys) = (case List.find P xs of Some x \<Rightarrow> Some x | None \<Rightarrow> List.find P ys)"
  by (induction xs) auto

lemma handleVehicleUpdates_lookup:
  "handleVehicleUpdates t b k =
     (case List.find (\<lambda>v. trip_id v = k) (rev b) of Some v \<Rightarrow> Some v | None \<Rightarrow> t k)"
  unfolding handleVehicleUpdates_def
  by (induction b arbitrary: t) (auto simp: find_append_first split: option.splits)

lemma apply_batches_lookup:
  "apply_batches t bs k =
     (case List.find (\<lambda>v. trip_id v = k) (rev (concat bs)) of Some v \<Rightarrow> Some v | None \<Rightarrow> t k)"
  unfolding apply_batches_def
  by (induction bs arbitrary: t)
     (auto simp: handleVehicleUpdates_lookup find_append_first split: option.splits)

text \<open>
  C3. Starting from the empty table, after any sequence of batches the table holds, under
  each trip id, the whole record of the last entry with that trip id among all the entries
  applied (in order of application), and nothing under a trip id that never occurred: the
  later record replaces the earlier one, no field is merged.
\<close>

theorem C3_last_write_wins:
  "apply_batches Map.empty bs k = List.find (\<lambda>v. trip_id v = k) (rev (concat bs))"
  by (simp add: apply_batches_lookup split: option.splits)

section \<open>No eviction\<close>

lemma handleVehicleUpdates_dom: "dom (handleVehicleUpdates t b) = dom t \<union> trip_id ` set b"
  unfolding handleVehicleUpdates_def
  by (induction b arbitrary: t) auto

lemma apply_batches_dom: "dom (apply_batches t bs) = dom t \<union> trip_id ` set (concat bs)"
  unfolding apply_batches_def
  by (induction bs arbitrary: t) (auto simp: handleVehicleUpdates_dom)

text \<open>
  C1, as stated, fails. Trip A is applied and drawn; a later batch, with a timestamp far
  beyond any horizon, carries only trip B. A is still a key of the table, so the marker
  effect does not put it in the set it removes.
\<close>

theorem C1_counterexample:
  "\<not> (''A'' \<in> toRemove
        ((update_markers (blank_page\<lparr> vehicles := handleVehicleUpdates Map.empty [vehicle ''A'' 1000] \<rparr>))
          \<lparr> vehicles := handleVehicleUpdates
                          (handleVehicleUpdates Map.empty [vehicle ''A'' 1000])
                          [vehicle ''B'' 9000000] \<rparr>))"
  by (simp add: toRemove_def update_markers_def handleVehicleUpdates_def vehicle_def
      blank_page_def)

text \<open>
  C1, amended. \<^verbatim>\<open>handleVehicleUpdates\<close> never removes a key: a trip that occurs in an applied
  batch is a key of the table after any later batches, whatever they contain, and the set of
  markers to remove computed against that table (the drawn trip ids that are not keys of
  it) does not contain the trip.
\<close>

theorem C1_never_evicted:
  assumes "v \<in> set b"
  shows "trip_id v \<in> dom (apply_batches (handleVehicleUpdates t b) later) \<and>
         trip_id v \<notin> toRemove (lm\<lparr> vehicles := apply_batches (handleVehicleUpdates t b) later \<rparr>)"
  using assms by (auto simp: toRemove_def apply_batches_dom handleVehicleUpdates_dom)

theorem C1_never_evicted_witness:
  "vehicle ''A'' 1000 \<in> set [vehicle ''A'' 1000] \<and>
   ''A'' \<in> dom (apply_batches (handleVehicleUpdates Map.empty [vehicle ''A'' 1000])
                  [[vehicle ''B'' 9000000]]) \<and>
   ''A'' \<notin> toRemove
     ((update_markers (blank_page\<lparr> vehicles := handleVehicleUpdates Map.empty [vehicle ''A'' 1000] \<rparr>))
        \<lparr> vehicles := apply_batches (handleVehicleUpdates Map.empty [vehicle ''A'' 1000])
                        [[vehicle ''B'' 9000000]] \<rparr>)"
proof -
  have a: "vehicle ''A'' 1000 \<in> set [vehicle ''A'' 1000]" by simp
  have t: "trip_id (vehicle ''A'' 1000) = ''A''" by (simp add: vehicle_def)
  from C1_never_evicted [OF a, of Map.empty "[[vehicle ''B'' 9000000]]"
      "update_markers (blank_page\<lparr> vehicles := handleVehicleUpdates Map.empty [vehicle ''A'' 1000] \<rparr>)"]
  show ?thesis unfolding t using a by simp
qed

section \<open>The pending viewport\<close>

lemma step_reconnecting:
  assumes "reconnecting ev" and "step cb ev (s, e) = Some (s', e')"
  shows "sent s' = sent s \<and> pendingBoundsRef s' = pendingBoundsRef s \<and> e' = e"
proof (cases ev)
  case (Pair now x)
  show ?thesis
  proof (cases x)
    case (Error h)
    with Pair assms show ?thesis by (auto simp: ws_onerror_def split: if_splits)
  next
    case (Close h)
    with Pair assms show ?thesis by (auto simp: ws_onclose_def split: if_splits)
  next
    case (Timeout tid)
    with Pair assms show ?thesis
      by (auto simp: connect_def clearTimeout_def clear_reconnect_def Let_def
               split: if_splits option.splits)
  qed (use Pair assms in auto)
qed

lemma run_reconnecting:
  "list_all reconnecting evs \<Longrightarrow> run cb evs (s, e) = Some (s', e') \<Longrightarrow>
   sent s' = sent s \<and> pendingBoundsRef s' = pendingBoundsRef s \<and> e' = e"
proof (induction evs arbitrary: s e)
  case Nil
  then show ?case by simp
next
  case (Cons ev evs)
  from Cons.prems obtain s1 e1 where st: "step cb ev (s, e) = Some (s1, e1)"
    and rest: "run cb evs (s1, e1) = Some (s', e')"
    by (auto split: option.splits)
  from Cons.prems have "reconnecting ev" and "list_all reconnecting evs" by simp_all
  with step_reconnecting [OF _ st] Cons.IH [OF _ rest] show ?case by simp
qed

lemma subscribe_twice:
  "\<not> current_open s \<Longrightarrow>
   subscribeToBounds B2 (subscribeToBounds B1 s) = s\<lparr> pendingBoundsRef := Some B2 \<rparr>"
  by (auto simp: subscribeToBounds_def current_open_def readyState_of_def
           split: option.splits if_splits)

lemma mount_init:
  "mount_effect True init =
     \<lparr> wsRef = Some 0, reconnectTimeoutRef = None, pendingBoundsRef = None,
       connected = False, vehicleCount = Num 0, error = None, lastUpdate = None,
       sockets = [CONNECTING], sent = [], timers = [], next_timer = 1 \<rparr>"
  by (simp add: mount_effect_def connect_def init_def current_open_def readyState_of_def
      clear_reconnect_def)

text \<open>
  While the current socket is not open, two calls of \<^verbatim>\<open>subscribeToBounds\<close> change nothing but
  the pending slot, which then holds the second viewport. Whatever errors, closes and
  reconnect timers follow, when a socket opens that is the current one, exactly one message
  is sent on it, the \<^verbatim>\<open>subscribe_bounds\<close> for the second viewport, and the slot is empty
  afterwards.
\<close>

lemma pending_flush_current:
  assumes "\<not> current_open s"
    and "list_all reconnecting evs"
    and "run cb evs (subscribeToBounds B2 (subscribeToBounds B1 s), e) = Some (s', e')"
    and "wsRef s' = Some h"
    and "readyState_of s' h = Some CONNECTING"
  shows "subscribeToBounds B2 (subscribeToBounds B1 s) = s\<lparr> pendingBoundsRef := Some B2 \<rparr> \<and>
         step cb (now, Open h) (s', e') =
           Some (s'\<lparr> sockets := (sockets s')[h := OPEN], connected := True, error := None,
                     sent := sent s @ [(h, SubscribeBounds B2)], pendingBoundsRef := None \<rparr>, e')"
proof -
  have two: "subscribeToBounds B2 (subscribeToBounds B1 s) = s\<lparr> pendingBoundsRef := Some B2 \<rparr>"
    using assms(1) by (rule subscribe_twice)
  from run_reconnecting [OF assms(2) assms(3)] two
  have keep: "sent s' = sent s" "pendingBoundsRef s' = Some B2" by simp_all
  from assms(5) have len: "h < length (sockets s')"
    by (simp add: readyState_of_def split: if_splits)
  have "step cb (now, Open h) (s', e') =
           Some (s'\<lparr> sockets := (sockets s')[h := OPEN], connected := True, error := None,
                     sent := sent s @ [(h, SubscribeBounds B2)], pendingBoundsRef := None \<rparr>, e')"
    using assms(4,5) keep len
    by (simp add: ws_onopen_def sendBounds_def readyState_of_def)
  with two show ?thesis by simp
qed

text \<open>
  C2 on the code: the effect runs, its cleanup runs, and the effect runs again, as React
  does with the effects of a component it mounts in strict mode. Socket 0 is closing and
  socket 1, the current one, is connecting. \<^verbatim>\<open>subscribeToBounds\<close> is called twice, and the
  pending slot holds the second viewport. The close event of socket 0 then runs
  \<^verbatim>\<open>ws.onclose\<close>, which forgets the current handle. When socket 1 opens, \<^verbatim>\<open>ws.onopen\<close>
  calls \<^verbatim>\<open>sendBounds\<close>, which finds no current handle and sends nothing, and clears the
  slot: the connection is open, no \<^verbatim>\<open>subscribe_bounds\<close> has been sent, and the second
  viewport is lost.
\<close>

theorem C2_pending_dropped:
  "run None [(0, Mount True), (1, Unmount), (2, Mount True),
             (3, SubscribeToBounds \<lparr> north = 1, south = 0, east = 1, west = 0 \<rparr>),
             (4, SubscribeToBounds \<lparr> north = 53.4, south = 53.3, east = -6.2, west = -6.3 \<rparr>)]
     (init, ()) =
     Some (\<lparr> wsRef = Some 1, reconnectTimeoutRef = None,
             pendingBoundsRef = Some \<lparr> north = 53.4, south = 53.3, east = -6.2, west = -6.3 \<rparr>,
             connected = False, vehicleCount = Num 0, error = None, lastUpdate = None,
             sockets = [CLOSING, CONNECTING], sent = [], timers = [], next_timer = 1 \<rparr>, ()) \<and>
   run None [(0, Mount True), (1, Unmount), (2, Mount True),
             (3, SubscribeToBounds \<lparr> north = 1, south = 0, east = 1, west = 0 \<rparr>),
             (4, SubscribeToBounds \<lparr> north = 53.4, south = 53.3, east = -6.2, west = -6.3 \<rparr>),
             (30, Close 0), (60, Open 1)]
     (init, ()) =
     Some (\<lparr> wsRef = None, reconnectTimeoutRef = Some 1, pendingBoundsRef = None,
             connected = True, vehicleCount = Num 0, error = None, lastUpdate = None,
             sockets = [CLOSED, OPEN], sent = [], timers = [(1, 3030)], next_timer = 2 \<rparr>, ())"
  by (simp add: init_def mount_effect_def connect_def current_open_def readyState_of_def
      clear_reconnect_def cleanup_def ws_close_def ws_onclose_def clearTimeout_def
      subscribeToBounds_def ws_onopen_def sendBounds_def)

section \<open>The reconnect loop\<close>

lemma failure_round:
  assumes "wsRef s = Some h" and "readyState_of s h = Some CONNECTING" and "timers s = []"
  shows "run None [(now, Error h), (now, Close h), (now + 3000, Timeout (next_timer s))] (s, ()) =
           Some (s\<lparr> connected := False, error := Some ''WebSocket connection error'',
                    reconnectTimeoutRef := Some (next_timer s),
                    next_timer := Suc (next_timer s),
                    sockets := (sockets s)[h := CLOSED] @ [CONNECTING],
                    wsRef := Some (length (sockets s)) \<rparr>, ())"
  using assms
  by (simp add: readyState_of_def ws_onerror_def ws_onclose_def clearTimeout_def connect_def
      current_open_def clear_reconnect_def split: if_splits)

lemma failures_step:
  assumes "wsRef s = Some h" and "readyState_of s h = Some CONNECTING" and "timers s = []"
  shows "failures (Suc n) now s =
           failures n (now + 3000)
             (s\<lparr> connected := False, error := Some ''WebSocket connection error'',
                 reconnectTimeoutRef := Some (next_timer s),
                 next_timer := Suc (next_timer s),
                 sockets := (sockets s)[h := CLOSED] @ [CONNECTING],
                 wsRef := Some (length (sockets s)) \<rparr>)"
  using assms(1) failure_round [OF assms, of now] by simp

lemma failures_attempting:
  "attempting s \<Longrightarrow>
   \<exists>s'. failures n now s = Some s' \<and> attempting s' \<and>
        length (sockets s') = length (sockets s) + n \<and> next_timer s' = next_timer s + n"
proof (induction n arbitrary: s now)
  case 0
  then show ?case by simp
next
  case (Suc n)
  from Suc.prems obtain h where h: "wsRef s = Some h" "readyState_of s h = Some CONNECTING"
    "timers s = []"
    by (auto simp: attempting_def split: option.splits)
  let ?s1 = "s\<lparr> connected := False, error := Some ''WebSocket connection error'',
                    reconnectTimeoutRef := Some (next_timer s),
                    next_timer := Suc (next_timer s),
                    sockets := (sockets s)[h := CLOSED] @ [CONNECTING],
                    wsRef := Some (length (sockets s)) \<rparr>"
  have att: "attempting ?s1"
    using h by (simp add: attempting_def readyState_of_def nth_append)
  from Suc.IH [OF att, of "now + 3000"] obtain s' where
    s': "failures n (now + 3000) ?s1 = Some s'" "attempting s'"
        "length (sockets s') = length (sockets ?s1) + n" "next_timer s' = next_timer ?s1 + n"
    by blast
  have "failures (Suc n) now s = Some s'"
    using s'(1) failures_step [OF h, of n now] by simp
  with s' show ?case by simp
qed

text \<open>
  C4. The close of any socket \<open>k\<close> that is not closed yet, in any state \<open>s0\<close>, at time
  \<open>now\<close>, registers exactly one more timer, due at \<open>now + 3000\<close>, whose callback is
  \<^verbatim>\<open>connect()\<close>; that timer cannot fire before then and can fire at any time from then on
  (its id being fresh). While a connection attempt is under way in \<open>s\<close>, for every \<open>n\<close>,
  \<open>n\<close> failures in a row can happen, each reconnect 3000 ms after the close before it;
  they open exactly \<open>n\<close> further sockets and register \<open>n\<close> timers, and after them the next
  attempt is under way again: the loop has no retry limit and the delay does not grow.
\<close>

theorem C4_reconnect_loop:
  assumes "readyState_of s0 k = Some r" and "r \<noteq> CLOSED"
    and "map_of (timers s0) (next_timer s0) = None"
    and "attempting s"
  shows "step cb (now, Close k) (s0, e) =
           Some (s0\<lparr> sockets := (sockets s0)[k := CLOSED], connected := False, wsRef := None,
                     timers := timers s0 @ [(next_timer s0, now + 3000)],
                     next_timer := Suc (next_timer s0),
                     reconnectTimeoutRef := Some (next_timer s0) \<rparr>, e) \<and>
         (\<forall>t. step cb (t, Timeout (next_timer s0))
                 (ws_onclose now (s0\<lparr> sockets := (sockets s0)[k := CLOSED] \<rparr>), e) = None
               \<longleftrightarrow> t < now + 3000) \<and>
         (\<exists>s'. failures n now s = Some s' \<and> attempting s' \<and>
               length (sockets s') = length (sockets s) + n \<and>
               next_timer s' = next_timer s + n)"
proof -
  have 1: "step cb (now, Close k) (s0, e) =
           Some (s0\<lparr> sockets := (sockets s0)[k := CLOSED], connected := False, wsRef := None,
                     timers := timers s0 @ [(next_timer s0, now + 3000)],
                     next_timer := Suc (next_timer s0),
                     reconnectTimeoutRef := Some (next_timer s0) \<rparr>, e)"
    using assms(1,2) by (simp add: ws_onclose_def)
  have 2: "\<forall>t. step cb (t, Timeout (next_timer s0))
                 (ws_onclose now (s0\<lparr> sockets := (sockets s0)[k := CLOSED] \<rparr>), e) = None
               \<longleftrightarrow> t < now + 3000"
    using assms(3) by (auto simp: ws_onclose_def map_add_def)
  from 1 2 failures_attempting [OF assms(4), of n now] show ?thesis by blast
qed

theorem C4_reconnect_loop_witness:
  "readyState_of live 0 = Some OPEN \<and> OPEN \<noteq> CLOSED \<and>
   map_of (timers live) (next_timer live) = None \<and>
   attempting (mount_effect True init) \<and>
   step None (7, Close 0) (live, ()) =
     Some (\<lparr> wsRef = None, reconnectTimeoutRef = Some 1, pendingBoundsRef = None,
             connected = False, vehicleCount = Num 0, error = None, lastUpdate = None,
             sockets = [CLOSED], sent = [], timers = [(1, 3007)], next_timer = 2 \<rparr>, ()) \<and>
   failures 5 7 (mount_effect True init) =
     Some \<lparr> wsRef = Some 5, reconnectTimeoutRef = Some 5, pendingBoundsRef = None,
            connected = False, vehicleCount = Num 0,
            error = Some ''WebSocket connection error'', lastUpdate = None,
            sockets = [CLOSED, CLOSED, CLOSED, CLOSED, CLOSED, CONNECTING], sent = [],
            timers = [], next_timer = 6 \<rparr>"
proof -
  let ?s = "mount_effect True init"
  have a: "readyState_of live 0 = Some OPEN" by (simp add: live_def readyState_of_def)
  have b: "OPEN \<noteq> CLOSED" by simp
  have c: "map_of (timers live) (next_timer live) = None" by (simp add: live_def)
  have d: "attempting ?s" by (simp add: mount_init attempting_def readyState_of_def)
  have f: "failures 5 7 ?s =
     Some \<lparr> wsRef = Some 5, reconnectTimeoutRef = Some 5, pendingBoundsRef = None,
            connected = False, vehicleCount = Num 0,
            error = Some ''WebSocket connection error'', lastUpdate = None,
            sockets = [CLOSED, CLOSED, CLOSED, CLOSED, CLOSED, CONNECTING], sent = [],
            timers = [], next_timer = 6 \<rparr>"
    unfolding mount_init
    by (simp add: eval_nat_numeral failures_step readyState_of_def del: failures.simps(2))
  from C4_reconnect_loop [OF a b c d, of None 7 "()" 5]
  have "step None (7, Close 0) (live, ()) =
           Some (live\<lparr> sockets := (sockets live)[0 := CLOSED], connected := False, wsRef := None,
                     timers := timers live @ [(next_timer live, 7 + 3000)],
                     next_timer := Suc (next_timer live),
                     reconnectTimeoutRef := Some (next_timer live) \<rparr>, ())"
    by blast
  then have g: "step None (7, Close 0) (live, ()) =
     Some (\<lparr> wsRef = None, reconnectTimeoutRef = Some 1, pendingBoundsRef = None,
             connected = False, vehicleCount = Num 0, error = None, lastUpdate = None,
             sockets = [CLOSED], sent = [], timers = [(1, 3007)], next_timer = 2 \<rparr>, ())"
    by (simp add: live_def)
  from a b c d g f show ?thesis by blast
qed

section \<open>connect while connected or connecting\<close>

lemma live_reached: "run None [(0, Mount True), (40, Open 0)] (init, ()) = Some (live, ())"
  by (simp add: init_def live_def mount_effect_def connect_def current_open_def readyState_of_def
      clear_reconnect_def ws_onopen_def)

text \<open>
  C5, as stated, fails. Right after the mount the only socket is still connecting, and it is
  the current one. Calling \<^verbatim>\<open>connect\<close> then opens a second socket and makes it current:
  the guard at the top of \<^verbatim>\<open>connect\<close> looks for \<open>OPEN\<close> only.
\<close>

theorem C5_counterexample:
  "readyState_of (mount_effect True init) 0 = Some CONNECTING \<and>
   wsRef (mount_effect True init) = Some 0 \<and>
   connect (mount_effect True init) \<noteq> mount_effect True init \<and>
   sockets (connect (mount_effect True init)) = [CONNECTING, CONNECTING] \<and>
   wsRef (connect (mount_effect True init)) = Some 1"
  by (simp add: mount_init connect_def current_open_def readyState_of_def clear_reconnect_def)

text \<open>
  C5, amended. When the current socket is open, \<^verbatim>\<open>connect\<close> opens no socket and leaves
  the whole state as it is, also when the effect calls it.
\<close>

theorem C5_connect_when_open:
  assumes "wsRef s = Some h" and "readyState_of s h = Some OPEN"
  shows "connect s = s \<and> step cb (now, Mount True) (s, e) = Some (s, e)"
  using assms by (simp add: connect_def current_open_def mount_effect_def)

theorem C5_connect_when_open_witness:
  "wsRef live = Some 0 \<and> readyState_of live 0 = Some OPEN \<and>
   connect live = live \<and> step None (50, Mount True) (live, ()) = Some (live, ())"
proof -
  have a: "wsRef live = Some 0" by (simp add: live_def)
  have b: "readyState_of live 0 = Some OPEN" by (simp add: live_def readyState_of_def)
  from C5_connect_when_open [OF a b, of None 50 "()"] a b show ?thesis by simp
qed

section \<open>Teardown\<close>

text \<open>Running the cleanup a second time changes nothing.\<close>

lemma clear_reconnect_keeps:
  "wsRef (clear_reconnect s) = wsRef s \<and> sockets (clear_reconnect s) = sockets s \<and>
   reconnectTimeoutRef (clear_reconnect s) = reconnectTimeoutRef s"
  by (simp add: clear_reconnect_def clearTimeout_def split: option.splits)

lemma clear_reconnect_idem: "clear_reconnect (clear_reconnect s) = clear_reconnect s"
  by (simp add: clear_reconnect_def clearTimeout_def split: option.splits)

lemma clear_reconnect_ws_close:
  "clear_reconnect (ws_close h s) = ws_close h (clear_reconnect s)"
  by (simp add: clear_reconnect_def clearTimeout_def ws_close_def readyState_of_def
      split: option.splits)

lemma clear_reconnect_wsRef:
  "clear_reconnect (s\<lparr> wsRef := w \<rparr>) = (clear_reconnect s)\<lparr> wsRef := w \<rparr>"
  by (simp add: clear_reconnect_def clearTimeout_def split: option.splits)

lemma cleanup_idempotent: "cleanup (cleanup s) = cleanup s"
proof (cases "wsRef s")
  case None
  then show ?thesis
    by (simp add: cleanup_def Let_def clear_reconnect_keeps clear_reconnect_idem)
next
  case (Some h)
  then have c: "cleanup s = (ws_close h (clear_reconnect s))\<lparr> wsRef := None \<rparr>"
    by (simp add: cleanup_def Let_def clear_reconnect_keeps)
  have "clear_reconnect (cleanup s) = cleanup s"
    by (simp add: c clear_reconnect_wsRef clear_reconnect_ws_close clear_reconnect_idem)
  moreover have "wsRef (cleanup s) = None" by (simp add: c)
  ultimately show ?thesis
    by (simp add: cleanup_def [of "cleanup s"] Let_def clear_reconnect_keeps)
qed

text \<open>
  C6 on the code: the hook is mounted, its socket opens, and the cleanup runs. The cleanup
  closes the socket, whose close event then runs \<^verbatim>\<open>ws.onclose\<close> as for any other close:
  it registers a reconnect timer, and when that fires \<^verbatim>\<open>connect\<close> opens a new socket,
  3 seconds after the teardown.
\<close>

theorem C6_reconnect_after_teardown:
  "run None [(0, Mount True), (40, Open 0), (9000, Unmount)] (init, ()) =
     Some (\<lparr> wsRef = None, reconnectTimeoutRef = None, pendingBoundsRef = None,
             connected = True, vehicleCount = Num 0, error = None, lastUpdate = None,
             sockets = [CLOSING], sent = [], timers = [], next_timer = 1 \<rparr>, ()) \<and>
   run None [(0, Mount True), (40, Open 0), (9000, Unmount), (9020, Close 0),
             (12020, Timeout 1)] (init, ()) =
     Some (\<lparr> wsRef = Some 1, reconnectTimeoutRef = Some 1, pendingBoundsRef = None,
             connected = False, vehicleCount = Num 0, error = None, lastUpdate = None,
             sockets = [CLOSED, CONNECTING], sent = [], timers = [], next_timer = 2 \<rparr>, ())"
  by (simp add: init_def mount_effect_def connect_def current_open_def readyState_of_def
      clear_reconnect_def ws_onopen_def cleanup_def ws_close_def ws_onclose_def clearTimeout_def)

section \<open>Superseded handles\<close>

text \<open>
  C7 on the code: the effect runs, its cleanup runs, and the effect runs again. Socket 0 is
  closing and socket 1 has superseded it. The close event of socket 0 then runs
  \<^verbatim>\<open>ws.onclose\<close>, which forgets the current handle and registers a reconnect timer, although
  socket 1 is alive. Socket 1 opens; the timer fires and \<^verbatim>\<open>connect\<close>, finding no current
  handle, opens socket 2, which supersedes socket 1 and opens as well. A frame that arrives
  on socket 1 afterwards still sets \<^verbatim>\<open>lastUpdate\<close> and \<^verbatim>\<open>vehicleCount\<close> and reaches the
  callback.
\<close>

theorem C7_stale_handle_events:
  "run None [(0, Mount True), (1, Unmount), (2, Mount True)] (init, ()) =
     Some (\<lparr> wsRef = Some 1, reconnectTimeoutRef = None, pendingBoundsRef = None,
             connected = False, vehicleCount = Num 0, error = None, lastUpdate = None,
             sockets = [CLOSING, CONNECTING], sent = [], timers = [], next_timer = 1 \<rparr>, ()) \<and>
   run None [(0, Mount True), (1, Unmount), (2, Mount True), (30, Close 0)] (init, ()) =
     Some (\<lparr> wsRef = None, reconnectTimeoutRef = Some 1, pendingBoundsRef = None,
             connected = False, vehicleCount = Num 0, error = None, lastUpdate = None,
             sockets = [CLOSED, CONNECTING], sent = [], timers = [(1, 3030)], next_timer = 2 \<rparr>, ()) \<and>
   run (Some log_delivery)
       [(0, Mount True), (1, Unmount), (2, Mount True), (30, Close 0), (60, Open 1),
        (3030, Timeout 1), (3060, Open 2),
        (4000, Message 1 (Json (vehicle_updates (Arr [vehicle_js ''A'' 1000]))))]
       (init, []) =
     Some (\<lparr> wsRef = Some 2, reconnectTimeoutRef = Some 1, pendingBoundsRef = None,
             connected = True, vehicleCount = Num 1, error = None, lastUpdate = Some 4000,
             sockets = [CLOSED, OPEN, OPEN], sent = [], timers = [], next_timer = 2 \<rparr>,
           [Arr [vehicle_js ''A'' 1000]])"
  by (simp add: init_def mount_effect_def connect_def current_open_def readyState_of_def
      clear_reconnect_def cleanup_def ws_close_def ws_onclose_def clearTimeout_def
      ws_onopen_def ws_onmessage_def onmessage_try.simps JSON_parse_def vehicle_updates_def
      log_delivery_def)


text \<open>
  The effect running again is the only way to this. In a run that starts with the effect
  and in which the effect does not run again, cleanups or not, every socket but the newest
  is closed in every state reached.
\<close>

lemma onmessage_keeps:
  "ws_onmessage cb now d (s, e) = (s', e') \<Longrightarrow>
   wsRef s' = wsRef s \<and> sockets s' = sockets s \<and> timers s' = timers s"
  unfolding ws_onmessage_def onmessage_try.simps Let_def
  by (auto split: sum.splits if_splits)

lemma sendBounds_keeps:
  "wsRef (sendBounds b s) = wsRef s \<and> sockets (sendBounds b s) = sockets s \<and>
   timers (sendBounds b s) = timers s"
  by (simp add: sendBounds_def split: option.splits)

lemma ws_onopen_keeps:
  "wsRef (ws_onopen s) = wsRef s \<and> sockets (ws_onopen s) = sockets s \<and>
   timers (ws_onopen s) = timers s"
  by (simp add: ws_onopen_def Let_def sendBounds_keeps split: option.splits)

lemma subscribeToBounds_keeps:
  "wsRef (subscribeToBounds b s) = wsRef s \<and> sockets (subscribeToBounds b s) = sockets s \<and>
   timers (subscribeToBounds b s) = timers s"
  by (simp add: subscribeToBounds_def sendBounds_keeps)

lemma map_of_single: "length ts = 1 \<Longrightarrow> map_of ts tid = Some due \<Longrightarrow> ts = [(tid, due)]"
  by (cases ts) (auto split: if_splits)

lemma newest_only_init: "newest_only (mount_effect a init)"
  by (cases a) (simp_all add: newest_only_def mount_init, simp add: mount_effect_def init_def)

lemma clear_reconnect_timers:
  "length (timers s) \<le> 1 \<Longrightarrow>
   timers (clear_reconnect s) = [] \<or> timers (clear_reconnect s) = timers s"
  by (cases "timers s") (auto simp: clear_reconnect_def clearTimeout_def split: option.splits)

lemma newest_only_cleanup:
  assumes inv: "newest_only s"
  shows "newest_only (cleanup s)"
proof -
  let ?s1 = "clear_reconnect s"
  from inv have le: "length (timers s) \<le> 1" by (auto simp: newest_only_def)
  have k: "wsRef ?s1 = wsRef s" "sockets ?s1 = sockets s"
    by (simp_all add: clear_reconnect_keeps)
  have t: "timers ?s1 = [] \<or> timers ?s1 = timers s" by (rule clear_reconnect_timers [OF le])
  have inv1: "newest_only ?s1"
    using inv t by (auto simp: newest_only_def k)
  show ?thesis
  proof (cases "wsRef s")
    case None
    with inv1 show ?thesis by (simp add: cleanup_def Let_def k)
  next
    case (Some h)
    then have c: "cleanup s = (ws_close h ?s1)\<lparr> wsRef := None \<rparr>"
      by (simp add: cleanup_def Let_def k)
    show ?thesis
    proof (cases "readyState_of ?s1 h = Some CONNECTING \<or> readyState_of ?s1 h = Some OPEN")
      case False
      then have same: "ws_close h ?s1 = ?s1" by (simp add: ws_close_def)
      have "\<forall>j < length (sockets ?s1). sockets ?s1 ! j \<noteq> CONNECTING"
      proof (intro allI impI notI)
        fix j assume j: "j < length (sockets ?s1)" "sockets ?s1 ! j = CONNECTING"
        with inv1 have "wsRef ?s1 = Some j" by (auto simp: newest_only_def)
        with Some k have "j = h" by simp
        with j False show False by (simp add: readyState_of_def)
      qed
      with inv1 show ?thesis by (auto simp: c same newest_only_def)
    next
      case True
      then have h: "h < length (sockets ?s1)" "sockets ?s1 ! h \<noteq> CLOSED"
        by (auto simp: readyState_of_def split: if_splits)
      from True have cl: "ws_close h ?s1 = ?s1\<lparr> sockets := (sockets ?s1)[h := CLOSING] \<rparr>"
        by (simp add: ws_close_def)
      from inv1 h have last: "\<not> Suc h < length (sockets ?s1)" and nt: "timers ?s1 = []"
        by (auto simp: newest_only_def)
      have nc: "(sockets ?s1)[h := CLOSING] ! j \<noteq> CONNECTING" if "j < length (sockets ?s1)" for j
      proof (cases "j = h")
        case True
        with that show ?thesis by simp
      next
        case False
        show ?thesis
        proof
          assume "(sockets ?s1)[h := CLOSING] ! j = CONNECTING"
          with False have "sockets ?s1 ! j = CONNECTING" by simp
          with inv1 that have "wsRef ?s1 = Some j" by (auto simp: newest_only_def)
          with Some k False show False by simp
        qed
      qed
      have old: "(sockets ?s1)[h := CLOSING] ! j = CLOSED" if "Suc j < length (sockets ?s1)" for j
      proof -
        from that last have "j \<noteq> h" by auto
        with inv1 that show ?thesis by (auto simp: newest_only_def)
      qed
      show ?thesis
        using nt nc old by (simp add: c cl newest_only_def)
    qed
  qed
qed

lemma newest_only_step:
  assumes inv: "newest_only s" and ev: "same_effect ev"
    and st: "step cb ev (s, e) = Some (s', e')"
  shows "newest_only s'"
proof (cases ev)
  case (Pair now x)
  show ?thesis
  proof (cases x)
    case (Open h)
    with Pair st have h: "h < length (sockets s)" "sockets s ! h = CONNECTING"
      and s': "s' = ws_onopen (s\<lparr> sockets := (sockets s)[h := OPEN] \<rparr>)"
      by (auto simp: readyState_of_def split: if_splits)
    from inv h have nt: "timers s = []" and last: "\<not> Suc h < length (sockets s)"
      by (auto simp: newest_only_def)
    have 1: "(sockets s)[h := OPEN] ! j = CLOSED" if "Suc j < length (sockets s)" for j
    proof -
      from that last have "j \<noteq> h" by auto
      with inv that show ?thesis by (auto simp: newest_only_def)
    qed
    have 2: "wsRef s = Some j"
      if "j < length (sockets s)" "(sockets s)[h := OPEN] ! j = CONNECTING" for j
    proof -
      from that h have "j \<noteq> h" by auto
      with inv that show ?thesis by (auto simp: newest_only_def)
    qed
    show ?thesis
      using nt 1 2 by (simp add: s' newest_only_def ws_onopen_keeps)
  next
    case (Message h d)
    with Pair st obtain "wsRef s' = wsRef s" "sockets s' = sockets s" "timers s' = timers s"
      using onmessage_keeps [of cb now d s e s' e'] by (auto split: if_splits)
    with inv show ?thesis by (simp add: newest_only_def)
  next
    case (Error h)
    with Pair st inv show ?thesis
      by (auto simp: newest_only_def ws_onerror_def split: if_splits)
  next
    case (Close h)
    with Pair st have h: "h < length (sockets s)" "sockets s ! h \<noteq> CLOSED"
      and s': "s' = ws_onclose now (s\<lparr> sockets := (sockets s)[h := CLOSED] \<rparr>)"
      by (auto simp: readyState_of_def split: if_splits)
    from inv h have nt: "timers s = []" and last: "\<not> Suc h < length (sockets s)"
      by (auto simp: newest_only_def)
    have "(sockets s)[h := CLOSED] ! j = CLOSED" if "j < length (sockets s)" for j
    proof (cases "j = h")
      case True
      with that show ?thesis by simp
    next
      case False
      with that last h have "Suc j < length (sockets s)" by auto
      with inv False show ?thesis by (auto simp: newest_only_def)
    qed
    with nt show ?thesis by (simp add: s' newest_only_def ws_onclose_def)
  next
    case (Timeout tid)
    with Pair st obtain due where due: "map_of (timers s) tid = Some due"
      and s': "s' = connect (clearTimeout tid s)"
      by (auto split: option.splits if_splits)
    from due have "timers s \<noteq> []" by auto
    with inv have one: "length (timers s) = 1"
      and closed: "\<forall>h < length (sockets s). sockets s ! h = CLOSED"
      by (auto simp: newest_only_def)
    from map_of_single [OF one due] have ts: "timers s = [(tid, due)]" .
    show ?thesis
      using ts closed
      by (auto simp: s' newest_only_def connect_def clearTimeout_def current_open_def
            readyState_of_def clear_reconnect_def Let_def nth_append split: option.splits)
  next
    case (SubscribeToBounds b)
    with Pair st inv show ?thesis
      by (auto simp: newest_only_def subscribeToBounds_keeps)
  next
    case (Mount a)
    with Pair ev show ?thesis by simp
  next
    case Unmount
    with Pair st inv show ?thesis by (auto intro: newest_only_cleanup)
  qed
qed

lemma newest_only_run:
  "newest_only s \<Longrightarrow> list_all same_effect evs \<Longrightarrow>
   run cb evs (s, e) = Some (s', e') \<Longrightarrow> newest_only s'"
proof (induction evs arbitrary: s e)
  case Nil
  then show ?case by simp
next
  case (Cons ev evs)
  from Cons.prems(3) obtain s1 e1 where st: "step cb ev (s, e) = Some (s1, e1)"
    and rest: "run cb evs (s1, e1) = Some (s', e')"
    by (auto split: option.splits)
  from Cons.prems(2) have 1: "same_effect ev" and 2: "list_all same_effect evs"
    by simp_all
  from newest_only_step [OF Cons.prems(1) 1 st] have "newest_only s1" .
  from Cons.IH [OF this 2 rest] show ?case .
qed

text \<open>So none of the callbacks of an older socket can fire there.\<close>

lemma old_sockets_silent:
  assumes "run cb ((t0, Mount a) # evs) (init, e) = Some (s, e')"
    and "list_all same_effect evs"
    and "Suc h < length (sockets s)"
  shows "step cb (t, Open h) (s, e') = None \<and> step cb (t, Message h d) (s, e') = None \<and>
         step cb (t, Error h) (s, e') = None \<and> step cb (t, Close h) (s, e') = None"
proof -
  from assms(1) have r: "run cb evs (mount_effect a init, e) = Some (s, e')" by simp
  from newest_only_run [OF newest_only_init assms(2) r] have "newest_only s" .
  with assms(3) have "sockets s ! h = CLOSED" by (auto simp: newest_only_def)
  with assms(3) show ?thesis by (auto simp: readyState_of_def)
qed

text \<open>And there a socket that opens is the current one, so the pending viewport is sent.\<close>

lemma reconnecting_same_effect: "reconnecting ev \<Longrightarrow> same_effect ev"
  by (cases ev rule: reconnecting.cases) auto

lemma pending_flush_same_effect:
  assumes "run cb ((t0, Mount a) # evs1) (init, e) = Some (s, e1)"
    and "list_all same_effect evs1"
    and "\<not> current_open s"
    and "list_all reconnecting evs2"
    and "run cb evs2 (subscribeToBounds B2 (subscribeToBounds B1 s), e1) = Some (s', e')"
    and "readyState_of s' h = Some CONNECTING"
  shows "step cb (now, Open h) (s', e') =
           Some (s'\<lparr> sockets := (sockets s')[h := OPEN], connected := True, error := None,
                     sent := sent s @ [(h, SubscribeBounds B2)], pendingBoundsRef := None \<rparr>, e')"
proof -
  from assms(1) have r: "run cb evs1 (mount_effect a init, e) = Some (s, e1)" by simp
  from newest_only_run [OF newest_only_init assms(2) r] have "newest_only s" .
  then have n2: "newest_only (subscribeToBounds B2 (subscribeToBounds B1 s))"
    by (simp add: subscribe_twice [OF assms(3)] newest_only_def)
  from assms(4) have "list_all same_effect evs2"
    by (induction evs2) (auto intro: reconnecting_same_effect)
  from newest_only_run [OF n2 this assms(5)] have "newest_only s'" .
  with assms(6) have cur: "wsRef s' = Some h"
    by (auto simp: newest_only_def readyState_of_def split: if_splits)
  from pending_flush_current [OF assms(3) assms(4) assms(5) cur assms(6), of now]
  show ?thesis by simp
qed

section \<open>Inbound frames\<close>

lemma vehicle_js_typed: "is_VehiclePosition (vehicle_js tid ts)"
  by (simp add: is_VehiclePosition_def vehicle_js_def field_def)

lemma vehicle_js_read: "the_VehiclePosition (vehicle_js tid ts) = vehicle tid ts"
  by (simp add: the_VehiclePosition_def vehicle_js_def vehicle_def field_def)

lemma as_vehicles_length:
  "as_vehicles v = Some b \<Longrightarrow> get_prop v ''length'' = Inr (Num (real (length b)))"
  by (cases v) (auto split: if_splits)

lemma onmessage_updates:
  assumes "get_prop m ''type'' = Inr (Str ''vehicle_updates'')"
    and "get_prop m ''vehicles'' = Inr vs" and "get_prop vs ''length'' = Inr n"
  shows "ws_onmessage cb now (Json m) (s, e) =
           (s\<lparr> lastUpdate := Some now, vehicleCount := n \<rparr>,
            (case cb of None \<Rightarrow> e | Some f \<Rightarrow> f vs e))"
  using assms by (simp add: ws_onmessage_def onmessage_try.simps JSON_parse_def)

lemma vehicles_update_markers: "vehicles (update_markers lm) = vehicles lm"
  by (simp add: update_markers_def Let_def)

lemma frame_props:
  "get_prop (vehicle_updates vs) ''type'' = Inr (Str ''vehicle_updates'') \<and>
   get_prop (vehicle_updates vs) ''vehicles'' = Inr vs"
  by (simp add: vehicle_updates_def)

text \<open>
  C8. A frame that does not parse makes \<^verbatim>\<open>JSON.parse\<close> throw inside the \<^verbatim>\<open>try\<close>; the handler
  catches it and returns with the whole state as it was, whatever the callback, and the
  socket stays open. With one such frame between two \<^verbatim>\<open>vehicle_updates\<close> frames whose
  \<^verbatim>\<open>vehicles\<close> are well-typed batches \<open>b1\<close> and \<open>b2\<close>, the page's table ends as
  \<open>b1\<close> then \<open>b2\<close> applied to it, and the hook's state is what the second frame alone
  leaves.
\<close>

theorem C8_malformed_frame_dropped:
  assumes "readyState_of s h = Some OPEN"
    and "get_prop m1 ''type'' = Inr (Str ''vehicle_updates'')"
    and "get_prop m1 ''vehicles'' = Inr v1" and "as_vehicles v1 = Some b1"
    and "get_prop m2 ''type'' = Inr (Str ''vehicle_updates'')"
    and "get_prop m2 ''vehicles'' = Inr v2" and "as_vehicles v2 = Some b2"
  shows "onmessage_try cb t2 Unparsable (s, e) = ((s, e), Some SyntaxError) \<and>
         step cb (t2, Message h Unparsable) (s, e) = Some (s, e) \<and>
         run (Some LiveMap_onVehicleUpdates)
           [(t1, Message h (Json m1)), (t2, Message h Unparsable), (t3, Message h (Json m2))]
           (s, Some lm) =
         Some (s\<lparr> lastUpdate := Some t3, vehicleCount := Num (real (length b2)) \<rparr>,
               Some (update_markers
                 ((update_markers (lm\<lparr> vehicles := handleVehicleUpdates (vehicles lm) b1 \<rparr>))
                    \<lparr> vehicles := handleVehicleUpdates (handleVehicleUpdates (vehicles lm) b1) b2 \<rparr>)))"
proof -
  have drop: "onmessage_try cb t2 Unparsable (s, e) = ((s, e), Some SyntaxError)"
    by (simp add: onmessage_try.simps JSON_parse_def)
  have st1: "step cb (t2, Message h Unparsable) (s, e) = Some (s, e)"
    using assms(1) by (simp add: ws_onmessage_def onmessage_try.simps JSON_parse_def)
  let ?s1 = "s\<lparr> lastUpdate := Some t1, vehicleCount := Num (real (length b1)) \<rparr>"
  let ?lm1 = "update_markers (lm\<lparr> vehicles := handleVehicleUpdates (vehicles lm) b1 \<rparr>)"
  have o1: "readyState_of ?s1 h = Some OPEN"
    using assms(1) by (auto simp: readyState_of_def split: if_splits)
  have st2: "step (Some LiveMap_onVehicleUpdates) (t2, Message h Unparsable) (?s1, Some ?lm1) =
               Some (?s1, Some ?lm1)"
    using o1 by (simp add: ws_onmessage_def onmessage_try.simps JSON_parse_def)
  have f1: "step (Some LiveMap_onVehicleUpdates) (t1, Message h (Json m1)) (s, Some lm) =
              Some (?s1, Some ?lm1)"
    using assms(1) assms(4)
    by (simp add: LiveMap_onVehicleUpdates_def
          onmessage_updates [OF assms(2) assms(3) as_vehicles_length [OF assms(4)]])
  have f2: "step (Some LiveMap_onVehicleUpdates) (t3, Message h (Json m2)) (?s1, Some ?lm1) =
              Some (s\<lparr> lastUpdate := Some t3, vehicleCount := Num (real (length b2)) \<rparr>,
               Some (update_markers
                 (?lm1\<lparr> vehicles := handleVehicleUpdates (handleVehicleUpdates (vehicles lm) b1) b2 \<rparr>)))"
    using o1 assms(7)
    by (simp add: LiveMap_onVehicleUpdates_def vehicles_update_markers
          onmessage_updates [OF assms(5) assms(6) as_vehicles_length [OF assms(7)]])
  have r: "run (Some LiveMap_onVehicleUpdates)
           [(t1, Message h (Json m1)), (t2, Message h Unparsable), (t3, Message h (Json m2))]
           (s, Some lm) =
         Some (s\<lparr> lastUpdate := Some t3, vehicleCount := Num (real (length b2)) \<rparr>,
               Some (update_markers
                 (?lm1\<lparr> vehicles := handleVehicleUpdates (handleVehicleUpdates (vehicles lm) b1) b2 \<rparr>)))"
    by (simp only: run.simps f1 st2 f2 option.case)
  from drop st1 r show ?thesis by simp
qed

theorem C8_malformed_frame_dropped_witness:
  "readyState_of live 0 = Some OPEN \<and>
   as_vehicles (Arr [vehicle_js ''A'' 1000]) = Some [vehicle ''A'' 1000] \<and>
   as_vehicles (Arr [vehicle_js ''B'' 1010]) = Some [vehicle ''B'' 1010] \<and>
   step (Some log_delivery) (150, Message 0 Unparsable) (live, []) = Some (live, []) \<and>
   run (Some LiveMap_onVehicleUpdates)
     [(100, Message 0 (Json (vehicle_updates (Arr [vehicle_js ''A'' 1000])))),
      (150, Message 0 Unparsable),
      (200, Message 0 (Json (vehicle_updates (Arr [vehicle_js ''B'' 1010]))))]
     (live, Some blank_page) =
   Some (live\<lparr> lastUpdate := Some 200, vehicleCount := Num 1 \<rparr>,
         Some (update_markers
           ((update_markers (blank_page\<lparr> vehicles := handleVehicleUpdates Map.empty [vehicle ''A'' 1000] \<rparr>))
              \<lparr> vehicles := handleVehicleUpdates (handleVehicleUpdates Map.empty [vehicle ''A'' 1000])
                              [vehicle ''B'' 1010] \<rparr>)))"
proof -
  have a: "readyState_of live 0 = Some OPEN" by (simp add: live_def readyState_of_def)
  have v1: "as_vehicles (Arr [vehicle_js ''A'' 1000]) = Some [vehicle ''A'' 1000]"
    by (simp add: vehicle_js_typed vehicle_js_read)
  have v2: "as_vehicles (Arr [vehicle_js ''B'' 1010]) = Some [vehicle ''B'' 1010]"
    by (simp add: vehicle_js_typed vehicle_js_read)
  have p1: "get_prop (vehicle_updates (Arr [vehicle_js ''A'' 1000])) ''type'' = Inr (Str ''vehicle_updates'')"
    and q1: "get_prop (vehicle_updates (Arr [vehicle_js ''A'' 1000])) ''vehicles'' = Inr (Arr [vehicle_js ''A'' 1000])"
    and p2: "get_prop (vehicle_updates (Arr [vehicle_js ''B'' 1010])) ''type'' = Inr (Str ''vehicle_updates'')"
    and q2: "get_prop (vehicle_updates (Arr [vehicle_js ''B'' 1010])) ''vehicles'' = Inr (Arr [vehicle_js ''B'' 1010])"
    by (simp_all add: frame_props)
  have bp: "vehicles blank_page = Map.empty" by (simp add: blank_page_def)
  from C8_malformed_frame_dropped [OF a p1 q1 v1 p2 q2 v2, of "Some log_delivery" 150 "[]" 100 200 blank_page]
    a v1 v2
  show ?thesis by (simp add: bp)
qed

text \<open>
  C9, as stated, fails. Two frames arrive, the first with trips A and B, the second with
  trip A only. The hook's \<^verbatim>\<open>vehicleCount\<close> is then 1, while the table holds two trips.
\<close>

theorem C9_counterexample:
  "map_option (vehicleCount \<circ> fst)
     (run (Some LiveMap_onVehicleUpdates)
        [(100, Message 0 (Json (vehicle_updates (Arr [vehicle_js ''A'' 1000, vehicle_js ''B'' 1000])))),
         (200, Message 0 (Json (vehicle_updates (Arr [vehicle_js ''A'' 1010]))))]
        (live, Some blank_page))
     = Some (Num 1) \<and>
   map_option (map_option shown_count \<circ> snd)
     (run (Some LiveMap_onVehicleUpdates)
        [(100, Message 0 (Json (vehicle_updates (Arr [vehicle_js ''A'' 1000, vehicle_js ''B'' 1000])))),
         (200, Message 0 (Json (vehicle_updates (Arr [vehicle_js ''A'' 1010]))))]
        (live, Some blank_page))
     = Some (Some 2)"
  by (simp add: live_def readyState_of_def ws_onmessage_def onmessage_try.simps JSON_parse_def
      vehicle_updates_def LiveMap_onVehicleUpdates_def vehicle_js_typed vehicle_js_read
      shown_count_def handleVehicleUpdates_def vehicle_def blank_page_def vehicles_update_markers)

text \<open>
  C9, amended. After a \<^verbatim>\<open>vehicle_updates\<close> frame whose \<^verbatim>\<open>vehicles\<close> is an array, the hook's
  \<^verbatim>\<open>vehicleCount\<close> is the number of entries of that array, whatever the callback. The count
  the page shows after the frame is the size of its table: when the entries are well typed,
  the number of distinct trip ids it held before or that occur in the frame.
\<close>

theorem C9_count_is_batch_length:
  assumes "get_prop m ''type'' = Inr (Str ''vehicle_updates'')"
    and "get_prop m ''vehicles'' = Inr (Arr xs)"
  shows "vehicleCount (fst (ws_onmessage cb now (Json m) (s, e))) = Num (real (length xs)) \<and>
         map_option shown_count
           (snd (ws_onmessage (Some LiveMap_onVehicleUpdates) now (Json m) (s, Some lm))) =
           map_option (\<lambda>b. card (dom (vehicles lm) \<union> trip_id ` set b)) (as_vehicles (Arr xs))"
proof -
  have len: "get_prop (Arr xs) ''length'' = Inr (Num (real (length xs)))" by simp
  have 1: "vehicleCount (fst (ws_onmessage cb now (Json m) (s, e))) = Num (real (length xs))"
    by (simp add: onmessage_updates [OF assms(1) assms(2) len])
  have 2: "map_option shown_count
           (snd (ws_onmessage (Some LiveMap_onVehicleUpdates) now (Json m) (s, Some lm))) =
           map_option (\<lambda>b. card (dom (vehicles lm) \<union> trip_id ` set b)) (as_vehicles (Arr xs))"
    by (simp add: onmessage_updates [OF assms(1) assms(2) len] LiveMap_onVehicleUpdates_def
        shown_count_def vehicles_update_markers handleVehicleUpdates_dom)
  from 1 2 show ?thesis ..
qed

theorem C9_count_is_batch_length_witness:
  "vehicleCount (fst (ws_onmessage (Some log_delivery) 200
       (Json (vehicle_updates (Arr [vehicle_js ''A'' 1010]))) (live, []))) = Num 1 \<and>
   map_option shown_count
     (snd (ws_onmessage (Some LiveMap_onVehicleUpdates) 200
        (Json (vehicle_updates (Arr [vehicle_js ''A'' 1010])))
        (live, Some (blank_page\<lparr> vehicles := [''A'' \<mapsto> vehicle ''A'' 1000, ''B'' \<mapsto> vehicle ''B'' 1000] \<rparr>)))) =
     Some 2"
proof -
  have v: "as_vehicles (Arr [vehicle_js ''A'' 1010]) = Some [vehicle ''A'' 1010]"
    by (simp add: vehicle_js_typed vehicle_js_read)
  have p: "get_prop (vehicle_updates (Arr [vehicle_js ''A'' 1010])) ''type'' = Inr (Str ''vehicle_updates'')"
    and q: "get_prop (vehicle_updates (Arr [vehicle_js ''A'' 1010])) ''vehicles'' = Inr (Arr [vehicle_js ''A'' 1010])"
    by (simp_all add: frame_props)
  have c: "card (dom (vehicles (blank_page\<lparr> vehicles := [''A'' \<mapsto> vehicle ''A'' 1000, ''B'' \<mapsto> vehicle ''B'' 1000] \<rparr>))
             \<union> trip_id ` set [vehicle ''A'' 1010]) = 2"
    by (simp add: vehicle_def card_insert_if)
  from C9_count_is_batch_length [OF p q, of "Some log_delivery" 200 live "[]"
      "blank_page\<lparr> vehicles := [''A'' \<mapsto> vehicle ''A'' 1000, ''B'' \<mapsto> vehicle ''B'' 1000] \<rparr>"]
  show ?thesis unfolding v option.map c by simp
qed

text \<open>
  C10, as stated, fails for a \<^verbatim>\<open>vehicles\<close> that is a string: nothing is thrown, the count
  becomes the length of the string, and the string is handed to the callback.
\<close>

theorem C10_counterexample:
  "onmessage_try (Some log_delivery) 100 (Json (vehicle_updates (Str ''ab''))) (live, []) =
     ((live\<lparr> lastUpdate := Some 100, vehicleCount := Num 2 \<rparr>, [Str ''ab'']), None)"
  by (simp add: onmessage_try.simps JSON_parse_def vehicle_updates_def log_delivery_def)

text \<open>
  C10, amended. For a frame of type \<^verbatim>\<open>vehicle_updates\<close> whose \<^verbatim>\<open>vehicles\<close> is missing or
  \<^verbatim>\<open>null\<close>, reading its \<^verbatim>\<open>length\<close> throws a TypeError inside the \<^verbatim>\<open>try\<close>. The handler
  returns and the socket stays open; \<^verbatim>\<open>lastUpdate\<close> has been set to the time of the frame,
  and nothing else has changed: not the count, and not the state behind the callback, which
  is not called.
\<close>

theorem C10_vehicles_missing:
  assumes "get_prop m ''type'' = Inr (Str ''vehicle_updates'')"
    and "get_prop m ''vehicles'' = Inr vs" and "vs = Undefined \<or> vs = Null"
    and "readyState_of s h = Some OPEN"
  shows "onmessage_try cb now (Json m) (s, e) =
           ((s\<lparr> lastUpdate := Some now \<rparr>, e), Some TypeError) \<and>
         step cb (now, Message h (Json m)) (s, e) = Some (s\<lparr> lastUpdate := Some now \<rparr>, e)"
  using assms by (auto simp: ws_onmessage_def onmessage_try.simps JSON_parse_def)

theorem C10_vehicles_missing_witness:
  "get_prop (Obj [(''type'', Str ''vehicle_updates''), (''ts'', Str ''2024-05-01T12:00:00Z'')])
     ''vehicles'' = Inr Undefined \<and>
   readyState_of live 0 = Some OPEN \<and>
   onmessage_try (Some log_delivery) 100
     (Json (Obj [(''type'', Str ''vehicle_updates''), (''ts'', Str ''2024-05-01T12:00:00Z'')]))
     (live, []) = ((live\<lparr> lastUpdate := Some 100 \<rparr>, []), Some TypeError) \<and>
   step (Some log_delivery) (100, Message 0
     (Json (Obj [(''type'', Str ''vehicle_updates''), (''ts'', Str ''2024-05-01T12:00:00Z'')])))
     (live, []) = Some (live\<lparr> lastUpdate := Some 100 \<rparr>, [])"
proof -
  let ?m = "Obj [(''type'', Str ''vehicle_updates''), (''ts'', Str ''2024-05-01T12:00:00Z'')]"
  have p: "get_prop ?m ''type'' = Inr (Str ''vehicle_updates'')" by simp
  have q: "get_prop ?m ''vehicles'' = Inr Undefined" by simp
  have u: "Undefined = Undefined \<or> Undefined = Null" by simp
  have o: "readyState_of live 0 = Some OPEN" by (simp add: live_def readyState_of_def)
  from C10_vehicles_missing [OF p q u o, of "Some log_delivery" 100 "[]"] q o
  show ?thesis by simp
qed

end
